theory Spec2Isabelle
  imports Main "HOL-Library.Sublist"
begin

section \<open>Values, options and observable events\<close>

text \<open>
  The helper \<^verbatim>\<open>src/utils/retryHelper.ts\<close> handles values of TypeScript type
  \<^verbatim>\<open>any\<close>: whatever an operation throws or rejects with, and whatever is handed to
  the error classifier. The datatype below is the fragment of JavaScript values the
  development needs. Numbers are integers, strings are lists of characters, and an
  object is the list of its own data properties (it holds no callable property).
\<close>

datatype js =
    JUndefined
  | JNull
  | JBool bool
  | JNum int
  | JStr string
  | JObj "(string \<times> js) list"

datatype exn = TypeError

text \<open>
  \<^verbatim>\<open>interface RetryOptions\<close>: every field is optional, \<open>None\<close> is an omitted (or
  \<^verbatim>\<open>undefined\<close>) property. A callback \<^verbatim>\<open>onRetry(attempt, error)\<close> returns nothing of
  interest; its only observable result is whether it throws, so it is a function to
  \<open>js option\<close>: \<open>None\<close> when it returns normally, \<open>Some x\<close> when it throws \<open>x\<close>.
  \<^verbatim>\<open>maxAttempts\<close> and \<^verbatim>\<open>delayMs\<close> are integers (of any sign).
\<close>

record RetryOptions =
  maxAttempts :: "int option"
  delayMs :: "int option"
  backoff :: "bool option"
  onRetry :: "(int \<Rightarrow> js \<Rightarrow> js option) option"

text \<open>
  What a call of \<^verbatim>\<open>retryWithBackoff\<close> does besides settling, in the order it does it:
  \<^item> \<open>FnCall\<close>: one invocation \<^verbatim>\<open>await fn()\<close> of the operation;
  \<^item> \<open>WarnLog attempt delay error\<close>: the call \<^verbatim>\<open>logger.warn\<close> of line 35;
  \<^item> \<open>ErrorLog maxAttempts error\<close>: the call \<^verbatim>\<open>logger.error\<close> of line 30;
  \<^item> \<open>OnRetryCall attempt error\<close>: the call \<^verbatim>\<open>onRetry(attempt, error)\<close> of line 38;
  \<^item> \<open>Timeout delay\<close>: the awaited \<^verbatim>\<open>setTimeout(resolve, delay)\<close> of line 41.
  The logger (\<^verbatim>\<open>utils/logger\<close>) only forwards to the console and never throws.
\<close>

datatype event =
    FnCall
  | WarnLog int int js
  | ErrorLog int js
  | OnRetryCall int js
  | Timeout int

section \<open>The retry loop\<close>

text \<open>A destructuring default \<^verbatim>\<open>{ x = d } = options\<close>.\<close>

fun or_default :: "'a option \<Rightarrow> 'a \<Rightarrow> 'a" where
  "or_default None d = d"
| "or_default (Some v) d = v"

text \<open>Lines 37 to 39: \<^verbatim>\<open>if (onRetry) { onRetry(attempt, error); }\<close>.\<close>

definition call_onRetry ::
  "(int \<Rightarrow> js \<Rightarrow> js option) option \<Rightarrow> int \<Rightarrow> js \<Rightarrow> js option \<times> event list" where
  "call_onRetry onRetry' attempt error =
     (case onRetry' of
        None \<Rightarrow> (None, [])
      | Some cb \<Rightarrow> (cb attempt error, [OnRetryCall attempt error]))"

text \<open>
  The \<^verbatim>\<open>for\<close> loop of lines 23 to 43 together with the final \<^verbatim>\<open>throw lastError\<close>.
  The operation \<^verbatim>\<open>fn: () => Promise<T>\<close> is side-effecting, so it is given by what
  each of its invocations settles to: \<open>fn k\<close> is the outcome of the \<open>k\<close>-th invocation
  made by this call, \<open>Inr v\<close> when the promise fulfils with \<open>v\<close> and \<open>Inl e\<close> when the
  invocation throws or rejects with \<open>e\<close> (both land in the \<^verbatim>\<open>catch\<close>). Every
  invocation is taken to settle: the helper sets no timeout, and a promise that stays
  pending would keep the call pending with it. \<open>calls\<close> counts the invocations made
  so far. The result is the settlement of the returned promise (\<open>Inl\<close> a rejection)
  and the events in order. The product \<^verbatim>\<open>delayMs * attempt\<close> of line 34 is the product
  of integers here; it is the number the code computes as long as the operands and
  the product are safe integers (\<open>exact_delay\<close> above).
\<close>

function retry_loop ::
  "(nat \<Rightarrow> js + 'a) \<Rightarrow> int \<Rightarrow> int \<Rightarrow> bool \<Rightarrow> (int \<Rightarrow> js \<Rightarrow> js option) option
     \<Rightarrow> int \<Rightarrow> js \<Rightarrow> nat \<Rightarrow> (js + 'a) \<times> event list" where
  "retry_loop fn maxAttempts' delayMs' backoff' onRetry' attempt lastError calls =
     (if attempt \<le> maxAttempts' then
        (case fn (Suc calls) of
           Inr v \<Rightarrow> (Inr v, [FnCall])
         | Inl error \<Rightarrow>
             if attempt = maxAttempts' then
               (Inl error, [FnCall, ErrorLog maxAttempts' error])
             else
               let delay = (if backoff' then delayMs' * attempt else delayMs');
                   warned = [FnCall, WarnLog attempt delay error]
               in (case call_onRetry onRetry' attempt error of
                     (Some thrown, cb_events) \<Rightarrow> (Inl thrown, warned @ cb_events)
                   | (None, cb_events) \<Rightarrow>
                       let rest = retry_loop fn maxAttempts' delayMs' backoff' onRetry'
                                    (attempt + 1) error (Suc calls)
                       in (fst rest, warned @ cb_events @ [Timeout delay] @ snd rest)))
      else (Inl lastError, []))"
  by pat_completeness auto
termination
  by (relation "measure (\<lambda>(fn, m, d, b, cb, a, le, c). nat (m + 1 - a))") auto

declare retry_loop.simps [simp del]

text \<open>
  \<^verbatim>\<open>retryWithBackoff(fn, options = {})\<close>: the defaults of lines 14 to 19, then the loop
  from \<^verbatim>\<open>attempt = 1\<close> with \<^verbatim>\<open>lastError\<close> still \<^verbatim>\<open>undefined\<close>.
\<close>

definition retryWithBackoff ::
  "(nat \<Rightarrow> js + 'a) \<Rightarrow> RetryOptions \<Rightarrow> (js + 'a) \<times> event list" where
  "retryWithBackoff fn options =
     (let maxAttempts' = or_default (maxAttempts options) 3;
          delayMs' = or_default (delayMs options) 1000;
          backoff' = or_default (backoff options) True;
          onRetry' = onRetry options;
          lastError = JUndefined
      in retry_loop fn maxAttempts' delayMs' backoff' onRetry' 1 lastError 0)"

text \<open>The empty configuration \<^verbatim>\<open>{}\<close>, also the value of an omitted second argument.\<close>

definition empty_options :: RetryOptions where
  "empty_options =
     \<lparr>maxAttempts = None, delayMs = None, backoff = None, onRetry = None\<rparr>"

text \<open>
  The configuration the documentation gives for omitted options, and a configuration
  with each omitted option filled in.
\<close>

definition documented_defaults :: RetryOptions where
  "documented_defaults =
     \<lparr>maxAttempts = Some 3, delayMs = Some 1000, backoff = Some True, onRetry = None\<rparr>"

definition with_defaults :: "RetryOptions \<Rightarrow> RetryOptions" where
  "with_defaults options =
     options\<lparr>maxAttempts := Some (or_default (maxAttempts options) 3),
             delayMs := Some (or_default (delayMs options) 1000),
             backoff := Some (or_default (backoff options) True)\<rparr>"

text \<open>
  The delay of the specification (section 4.1, step 4a): \<^verbatim>\<open>baseDelay * attempt\<close> if
  backoff is enabled, else \<^verbatim>\<open>baseDelay\<close>. It is what the traces of the code are
  compared with.
\<close>

definition expected_delay :: "bool \<Rightarrow> int \<Rightarrow> int \<Rightarrow> int" where
  "expected_delay useBackoff baseDelay n = (if useBackoff then baseDelay * n else baseDelay)"

text \<open>
  The numbers of the code are IEEE 754 doubles, those of this development are
  integers. A double holds every integer below \<open>2 ^ 53\<close> in absolute value exactly
  (\<^verbatim>\<open>Number.isSafeInteger\<close>), and the product of two such integers is computed exactly
  if it is such an integer itself; a larger product is rounded (\<^verbatim>\<open>9007199254740991 * 3\<close>
  is \<^verbatim>\<open>27021597764222972\<close> in the code). So the delay that the code passes on is known
  to be the integer \<open>expected_delay\<close> where \<open>exact_delay\<close> holds, and the value of a
  delay is stated under that condition only.
\<close>

definition safe_integer :: "int \<Rightarrow> bool" where
  "safe_integer x = (\<bar>x\<bar> < 2 ^ 53)"

definition exact_delay :: "bool \<Rightarrow> int \<Rightarrow> int \<Rightarrow> bool" where
  "exact_delay useBackoff baseDelay n =
     (safe_integer baseDelay
      \<and> (useBackoff \<longrightarrow> safe_integer n \<and> safe_integer (baseDelay * n)))"

subsection \<open>Reading a trace\<close>

definition fn_calls :: "event list \<Rightarrow> nat" where
  "fn_calls evs = length (filter (\<lambda>ev. ev = FnCall) evs)"

fun onRetry_calls :: "event list \<Rightarrow> (int \<times> js) list" where
  "onRetry_calls [] = []"
| "onRetry_calls (OnRetryCall n e # evs) = (n, e) # onRetry_calls evs"
| "onRetry_calls (ev # evs) = onRetry_calls evs"

fun timeouts :: "event list \<Rightarrow> int list" where
  "timeouts [] = []"
| "timeouts (Timeout d # evs) = d # timeouts evs"
| "timeouts (ev # evs) = timeouts evs"

text \<open>
  The events of one failed attempt that is followed by another one, as the loop body
  produces them when the callback (if there is one) returns normally.
\<close>

definition retry_events :: "int \<Rightarrow> bool \<Rightarrow> bool \<Rightarrow> int \<Rightarrow> js \<Rightarrow> event list" where
  "retry_events delayMs' backoff' configured attempt error =
     (let delay = (if backoff' then delayMs' * attempt else delayMs')
      in [FnCall, WarnLog attempt delay error]
         @ (if configured then [OnRetryCall attempt error] else [])
         @ [Timeout delay])"

text \<open>The payload of a failed invocation.\<close>

fun error_of :: "js + 'a \<Rightarrow> js" where
  "error_of (Inl e) = e"
| "error_of (Inr v) = JUndefined"

text \<open>
  The events of \<open>k\<close> such attempts in a row, the first one being attempt \<open>a\<close> and
  invocation \<open>Suc c\<close> of the operation.
\<close>

fun failed_run ::
  "(nat \<Rightarrow> js + 'a) \<Rightarrow> int \<Rightarrow> bool \<Rightarrow> bool \<Rightarrow> int \<Rightarrow> nat \<Rightarrow> nat \<Rightarrow> event list" where
  "failed_run fn d b configured a c 0 = []"
| "failed_run fn d b configured a c (Suc k) =
     retry_events d b configured a (error_of (fn (Suc c)))
       @ failed_run fn d b configured (a + 1) (Suc c) k"

text \<open>The callback, when there is one, returns normally on every call.\<close>

definition never_throws :: "(int \<Rightarrow> js \<Rightarrow> js option) option \<Rightarrow> bool" where
  "never_throws onRetry' = (case onRetry' of None \<Rightarrow> True | Some cb \<Rightarrow> \<forall>n e. cb n e = None)"

section \<open>The error classifier\<close>

text \<open>
  \<^verbatim>\<open>String.prototype.toLowerCase\<close> on ASCII text: each of the letters \<open>A\<close> to \<open>Z\<close>
  becomes the letter \<open>a\<close> to \<open>z\<close> at the same place of the alphabet; every other
  character is left as it is.
\<close>

definition upper_letters :: string where
  "upper_letters = ''ABCDEFGHIJKLMNOPQRSTUVWXYZ''"

definition lower_letters :: string where
  "lower_letters = ''abcdefghijklmnopqrstuvwxyz''"

definition toLowerCase_char :: "char \<Rightarrow> char" where
  "toLowerCase_char c =
     (case map_of (zip upper_letters lower_letters) c of None \<Rightarrow> c | Some l \<Rightarrow> l)"

definition toLowerCase :: "string \<Rightarrow> string" where
  "toLowerCase s = map toLowerCase_char s"

text \<open>\<^verbatim>\<open>s.includes(p)\<close>: \<open>p\<close> occurs in \<open>s\<close> as a contiguous piece.\<close>

fun str_includes :: "string \<Rightarrow> string \<Rightarrow> bool" where
  "str_includes [] p = (p = [])"
| "str_includes (c # s) p = (prefix p (c # s) \<or> str_includes s p)"

text \<open>
  \<^verbatim>\<open>error?.message\<close>: \<^verbatim>\<open>undefined\<close> for \<^verbatim>\<open>null\<close> and \<^verbatim>\<open>undefined\<close>; the own property
  of an object, \<^verbatim>\<open>undefined\<close> when it has none of that name; \<^verbatim>\<open>undefined\<close> for a
  boolean, a number or a string, whose prototypes have no \<^verbatim>\<open>message\<close>.
\<close>

fun get_message :: "js \<Rightarrow> js" where
  "get_message (JObj props) =
     (case map_of props ''message'' of None \<Rightarrow> JUndefined | Some v \<Rightarrow> v)"
| "get_message v = JUndefined"

text \<open>
  \<^verbatim>\<open>m?.toLowerCase()\<close>: \<^verbatim>\<open>undefined\<close> when \<open>m\<close> is \<^verbatim>\<open>null\<close> or \<^verbatim>\<open>undefined\<close>, the
  lowercased string when \<open>m\<close> is a string. For any other \<open>m\<close> the property
  \<^verbatim>\<open>m.toLowerCase\<close> is \<^verbatim>\<open>undefined\<close> and calling it throws a \<^verbatim>\<open>TypeError\<close>.
\<close>

fun optional_toLowerCase :: "js \<Rightarrow> exn + js" where
  "optional_toLowerCase JUndefined = Inr JUndefined"
| "optional_toLowerCase JNull = Inr JUndefined"
| "optional_toLowerCase (JStr s) = Inr (JStr (toLowerCase s))"
| "optional_toLowerCase v = Inl TypeError"

text \<open>
  \<^verbatim>\<open>x || ''\<close> for an \<open>x\<close> that is \<^verbatim>\<open>undefined\<close> or a string: the string itself (the
  empty string is falsy and is replaced by the empty string), otherwise \<^verbatim>\<open>''\<close>.
\<close>

fun or_empty :: "js \<Rightarrow> string" where
  "or_empty (JStr s) = s"
| "or_empty v = []"

definition networkErrorMessages :: "string list" where
  "networkErrorMessages =
     [''network request failed'',
      ''failed to fetch'',
      ''network error'',
      ''timeout'',
      ''connection refused'',
      ''ERR_NETWORK'',
      ''ERR_INTERNET_DISCONNECTED'']"

definition isNetworkError :: "js \<Rightarrow> exn + bool" where
  "isNetworkError error =
     (case optional_toLowerCase (get_message error) of
        Inl ex \<Rightarrow> Inl ex
      | Inr lowered \<Rightarrow>
          let errorMessage = or_empty lowered
          in Inr (list_ex (\<lambda>msg. str_includes errorMessage msg) networkErrorMessages))"

text \<open>The five entries of the list that are written in lower case.\<close>

definition lowercase_patterns :: "string list" where
  "lowercase_patterns =
     [''network request failed'',
      ''failed to fetch'',
      ''network error'',
      ''timeout'',
      ''connection refused'']"

section \<open>Sample operations and callbacks\<close>

text \<open>An operation whose \<open>k\<close>-th invocation rejects with the number \<open>k\<close>.\<close>

definition always_fails :: "nat \<Rightarrow> js + int" where
  "always_fails k = Inl (JNum (int k))"

text \<open>
  The scenario of the specification: \<^verbatim>\<open>E1\<close> on attempt 1, \<^verbatim>\<open>E2\<close> on attempt 2, then
  the value 42.
\<close>

definition fails_twice :: "nat \<Rightarrow> js + int" where
  "fails_twice k =
     (if k = 1 then Inl (JStr ''E1'') else if k = 2 then Inl (JStr ''E2'') else Inr 42)"

definition succeeds :: "nat \<Rightarrow> js + int" where
  "succeeds k = Inr 42"

definition quiet_observer :: "int \<Rightarrow> js \<Rightarrow> js option" where
  "quiet_observer attempt error = None"

definition throwing_observer :: "int \<Rightarrow> js \<Rightarrow> js option" where
  "throwing_observer attempt error = Some (JStr ''observer failed'')"

text \<open>An observer that throws from the second retry on.\<close>

definition late_throwing_observer :: "int \<Rightarrow> js \<Rightarrow> js option" where
  "late_throwing_observer attempt error =
     (if attempt < 2 then None else Some (JStr ''observer failed''))"

definition sample_options :: "int \<Rightarrow> (int \<Rightarrow> js \<Rightarrow> js option) option \<Rightarrow> RetryOptions" where
  "sample_options n cb =
     \<lparr>maxAttempts = Some n, delayMs = Some 100, backoff = Some True, onRetry = cb\<rparr>"

section \<open>Unfolding the loop\<close>

lemma fn_calls_Nil [simp]: "fn_calls [] = 0"
  by (simp add: fn_calls_def)

lemma fn_calls_Cons [simp]: "fn_calls (ev # evs) = (if ev = FnCall then Suc (fn_calls evs) else fn_calls evs)"
  by (simp add: fn_calls_def)

lemma fn_calls_append [simp]: "fn_calls (xs @ ys) = fn_calls xs + fn_calls ys"
  by (simp add: fn_calls_def)

lemma onRetry_calls_append [simp]: "onRetry_calls (xs @ ys) = onRetry_calls xs @ onRetry_calls ys"
  by (induction xs rule: onRetry_calls.induct) simp_all

lemma timeouts_append [simp]: "timeouts (xs @ ys) = timeouts xs @ timeouts ys"
  by (induction xs rule: timeouts.induct) simp_all

lemma retry_loop_done:
  "\<not> a \<le> m \<Longrightarrow> retry_loop fn m d b cb a le c = (Inl le, [])"
  by (simp add: retry_loop.simps)

lemma retry_loop_success:
  "a \<le> m \<Longrightarrow> fn (Suc c) = Inr v \<Longrightarrow> retry_loop fn m d b cb a le c = (Inr v, [FnCall])"
  by (simp add: retry_loop.simps)

lemma retry_loop_exhausted:
  "fn (Suc c) = Inl e \<Longrightarrow> retry_loop fn m d b cb m le c = (Inl e, [FnCall, ErrorLog m e])"
  by (simp add: retry_loop.simps)

lemma retry_loop_throw:
  "a < m \<Longrightarrow> fn (Suc c) = Inl e \<Longrightarrow> cb = Some f \<Longrightarrow> f a e = Some x \<Longrightarrow>
   retry_loop fn m d b cb a le c =
     (Inl x, [FnCall, WarnLog a (if b then d * a else d) e, OnRetryCall a e])"
  by (subst retry_loop.simps) (simp add: call_onRetry_def)

lemma retry_loop_retry:
  "a < m \<Longrightarrow> fn (Suc c) = Inl e \<Longrightarrow> fst (call_onRetry cb a e) = None \<Longrightarrow>
   retry_loop fn m d b cb a le c =
     (fst (retry_loop fn m d b cb (a + 1) e (Suc c)),
      retry_events d b (cb \<noteq> None) a e @ snd (retry_loop fn m d b cb (a + 1) e (Suc c)))"
  by (subst retry_loop.simps) (auto simp: call_onRetry_def retry_events_def Let_def split: option.splits)

lemma retry_loop_lastError:
  "a \<le> m \<Longrightarrow> retry_loop fn m d b cb a le c = retry_loop fn m d b cb a le' c"
  by (subst retry_loop.simps, subst (2) retry_loop.simps) simp

lemma fn_calls_retry_events [simp]: "fn_calls (retry_events d b conf a e) = 1"
  by (simp add: retry_events_def Let_def)

lemma timeouts_retry_events [simp]:
  "timeouts (retry_events d b conf a e) = [if b then d * a else d]"
  by (simp add: retry_events_def Let_def)

lemma onRetry_calls_retry_events [simp]:
  "onRetry_calls (retry_events d b conf a e) = (if conf then [(a, e)] else [])"
  by (simp add: retry_events_def Let_def)

lemma retry_loop_failed_run:
  assumes "a + int k \<le> m"
    and "\<forall>i<k. isl (fn (Suc (c + i)))"
    and "\<forall>i<k. fst (call_onRetry cb (a + int i) (error_of (fn (Suc (c + i))))) = None"
  shows "retry_loop fn m d b cb a le c =
     (fst (retry_loop fn m d b cb (a + int k) le' (c + k)),
      failed_run fn d b (cb \<noteq> None) a c k
        @ snd (retry_loop fn m d b cb (a + int k) le' (c + k)))"
  using assms
proof (induction k arbitrary: a c le)
  case 0
  then show ?case
    using retry_loop_lastError [of a m fn d b cb le c le'] by simp
next
  case (Suc k)
  from Suc.prems(2) have "isl (fn (Suc c))" by force
  then obtain e where e: "fn (Suc c) = Inl e" by (cases "fn (Suc c)") auto
  from Suc.prems(3) e have quiet: "fst (call_onRetry cb a e) = None" by force
  from Suc.prems(1) have lt: "a < m" by simp
  have step: "retry_loop fn m d b cb a le c =
     (fst (retry_loop fn m d b cb (a + 1) e (Suc c)),
      retry_events d b (cb \<noteq> None) a e @ snd (retry_loop fn m d b cb (a + 1) e (Suc c)))"
    using lt e quiet by (rule retry_loop_retry)
  have p1: "a + 1 + int k \<le> m" using Suc.prems(1) by simp
  have p2: "\<forall>i<k. isl (fn (Suc (Suc c + i)))"
    using Suc.prems(2) by (metis Suc_less_eq add_Suc_right add_Suc)
  have p3: "\<forall>i<k. fst (call_onRetry cb (a + 1 + int i) (error_of (fn (Suc (Suc c + i))))) = None"
  proof (intro allI impI)
    fix i assume "i < k"
    then have "fst (call_onRetry cb (a + int (Suc i)) (error_of (fn (Suc (c + Suc i))))) = None"
      using Suc.prems(3) by (meson Suc_less_eq)
    then show "fst (call_onRetry cb (a + 1 + int i) (error_of (fn (Suc (Suc c + i))))) = None"
      by (simp add: add.commute add.left_commute)
  qed
  have rest: "retry_loop fn m d b cb (a + 1) e (Suc c) =
     (fst (retry_loop fn m d b cb (a + 1 + int k) le' (Suc c + k)),
      failed_run fn d b (cb \<noteq> None) (a + 1) (Suc c) k
        @ snd (retry_loop fn m d b cb (a + 1 + int k) le' (Suc c + k)))"
    using p1 p2 p3 by (rule Suc.IH)
  have idx: "a + int (Suc k) = a + 1 + int k" "c + Suc k = Suc c + k" by simp_all
  show ?case
    unfolding idx by (subst step, subst (1 2) rest) (simp add: e)
qed

lemma fn_calls_failed_run [simp]: "fn_calls (failed_run fn d b conf a c k) = k"
  by (induction k arbitrary: a c) simp_all

lemma upt_0_Suc: "[0..<Suc k] = 0 # map Suc [0..<k]"
  by (simp add: upt_rec [of 0 "Suc k"] map_Suc_upt del: upt_Suc)

lemma timeouts_failed_run:
  "timeouts (failed_run fn d b conf a c k) =
     map (\<lambda>i. if b then d * (a + int i) else d) [0..<k]"
proof (induction k arbitrary: a c)
  case 0
  show ?case by simp
next
  case (Suc k)
  show ?case
    unfolding upt_0_Suc by (simp add: Suc.IH comp_def add.assoc del: upt_Suc)
qed

lemma onRetry_calls_failed_run:
  "onRetry_calls (failed_run fn d b conf a c k) =
     (if conf then map (\<lambda>i. (a + int i, error_of (fn (Suc (c + i))))) [0..<k] else [])"
proof (induction k arbitrary: a c)
  case 0
  show ?case by simp
next
  case (Suc k)
  show ?case
    unfolding upt_0_Suc by (simp add: Suc.IH comp_def add.assoc del: upt_Suc)
qed

section \<open>Which attempts take place\<close>

lemma call_onRetry_never_throws:
  "never_throws cb \<Longrightarrow> fst (call_onRetry cb a e) = None"
  by (auto simp: never_throws_def call_onRetry_def split: option.splits)

lemma call_onRetry_Some:
  "fst (call_onRetry cb a e) = Some x \<Longrightarrow> \<exists>f. cb = Some f \<and> f a e = Some x"
  by (auto simp: call_onRetry_def split: option.splits)

lemma retry_loop_single_call:
  assumes "Suc 0 < fn_calls (snd (retry_loop fn m d b cb a le c))"
  shows "a < m \<and> isl (fn (Suc c)) \<and> fst (call_onRetry cb a (error_of (fn (Suc c)))) = None"
proof -
  let ?R = "retry_loop fn m d b cb a le c"
  have le: "a \<le> m"
  proof (rule ccontr)
    assume "\<not> a \<le> m"
    then have "?R = (Inl le, [])" by (rule retry_loop_done)
    with assms show False by simp
  qed
  have fails: "isl (fn (Suc c))"
  proof (cases "fn (Suc c)")
    case (Inl e)
    then show ?thesis by simp
  next
    case (Inr v)
    with le have "?R = (Inr v, [FnCall])" by (rule retry_loop_success)
    with assms show ?thesis by simp
  qed
  then obtain e where e: "fn (Suc c) = Inl e" by (cases "fn (Suc c)") auto
  have lt: "a < m"
  proof (rule ccontr)
    assume "\<not> a < m"
    with le have "a = m" by simp
    with e have "?R = (Inl e, [FnCall, ErrorLog m e])"
      using retry_loop_exhausted [of fn c e m d b cb le] by simp
    with assms show False by simp
  qed
  have quiet: "fst (call_onRetry cb a e) = None"
  proof (cases "fst (call_onRetry cb a e)")
    case None
    then show ?thesis .
  next
    case (Some x)
    then obtain f where f: "cb = Some f" "f a e = Some x"
      using call_onRetry_Some by blast
    have "?R = (Inl x, [FnCall, WarnLog a (if b then d * a else d) e, OnRetryCall a e])"
      using lt e f by (rule retry_loop_throw)
    with assms show ?thesis by simp
  qed
  from lt fails quiet e show ?thesis by simp
qed

lemma attempt_reached:
  assumes "k < fn_calls (snd (retry_loop fn m d b cb a le c))"
  shows "a + int k \<le> m \<and> (\<forall>i<k. isl (fn (Suc (c + i))))
       \<and> (\<forall>i<k. fst (call_onRetry cb (a + int i) (error_of (fn (Suc (c + i))))) = None)"
  using assms
proof (induction k arbitrary: a c le)
  case 0
  have "a \<le> m"
  proof (rule ccontr)
    assume "\<not> a \<le> m"
    then have "retry_loop fn m d b cb a le c = (Inl le, [])" by (rule retry_loop_done)
    with 0 show False by simp
  qed
  then show ?case by simp
next
  case (Suc k)
  let ?e = "error_of (fn (Suc c))"
  from Suc.prems have "Suc 0 < fn_calls (snd (retry_loop fn m d b cb a le c))" by simp
  then have one: "a < m" "isl (fn (Suc c))" "fst (call_onRetry cb a ?e) = None"
    using retry_loop_single_call by blast+
  from one(2) have e: "fn (Suc c) = Inl ?e" by (cases "fn (Suc c)") auto
  have step: "retry_loop fn m d b cb a le c =
     (fst (retry_loop fn m d b cb (a + 1) ?e (Suc c)),
      retry_events d b (cb \<noteq> None) a ?e @ snd (retry_loop fn m d b cb (a + 1) ?e (Suc c)))"
    using one(1) e one(3) by (rule retry_loop_retry)
  from Suc.prems have "k < fn_calls (snd (retry_loop fn m d b cb (a + 1) ?e (Suc c)))"
    by (subst (asm) step) simp
  then have IH: "a + 1 + int k \<le> m" "\<forall>i<k. isl (fn (Suc (Suc c + i)))"
    "\<forall>i<k. fst (call_onRetry cb (a + 1 + int i) (error_of (fn (Suc (Suc c + i))))) = None"
    using Suc.IH by blast+
  have "isl (fn (Suc (c + i)))" if "i < Suc k" for i
  proof (cases i)
    case 0
    with one(2) show ?thesis by simp
  next
    case (Suc j)
    with that IH(2) show ?thesis by simp
  qed
  moreover have "fst (call_onRetry cb (a + int i) (error_of (fn (Suc (c + i))))) = None"
    if "i < Suc k" for i
  proof (cases i)
    case 0
    with one(3) show ?thesis by simp
  next
    case (Suc j)
    with that IH(3) have "fst (call_onRetry cb (a + 1 + int j) (error_of (fn (Suc (Suc c + j))))) = None"
      by simp
    with Suc show ?thesis by (simp add: add.commute add.left_commute)
  qed
  moreover from IH(1) have "a + int (Suc k) \<le> m" by simp
  ultimately show ?case by blast
qed

lemma retry_loop_settles:
  assumes "a \<le> m" and "never_throws cb"
  shows "1 \<le> fn_calls (snd (retry_loop fn m d b cb a le c))
       \<and> a + int (fn_calls (snd (retry_loop fn m d b cb a le c))) - 1 \<le> m
       \<and> fst (retry_loop fn m d b cb a le c)
           = fn (c + fn_calls (snd (retry_loop fn m d b cb a le c)))
       \<and> (isl (fst (retry_loop fn m d b cb a le c))
            \<longrightarrow> a + int (fn_calls (snd (retry_loop fn m d b cb a le c))) - 1 = m)"
  using assms(1)
proof (induction "nat (m - a)" arbitrary: a c le)
  case 0
  then have am: "a = m" by simp
  show ?case
  proof (cases "fn (Suc c)")
    case (Inl e)
    then have "retry_loop fn m d b cb m le c = (Inl e, [FnCall, ErrorLog m e])"
      by (rule retry_loop_exhausted)
    with am Inl show ?thesis by simp
  next
    case (Inr v)
    with 0(2) have "retry_loop fn m d b cb a le c = (Inr v, [FnCall])"
      by (rule retry_loop_success)
    with am Inr show ?thesis by simp
  qed
next
  case (Suc j)
  then have lt: "a < m" by simp
  show ?case
  proof (cases "fn (Suc c)")
    case (Inl e)
    have quiet: "fst (call_onRetry cb a e) = None"
      using assms(2) by (rule call_onRetry_never_throws)
    have step: "retry_loop fn m d b cb a le c =
       (fst (retry_loop fn m d b cb (a + 1) e (Suc c)),
        retry_events d b (cb \<noteq> None) a e @ snd (retry_loop fn m d b cb (a + 1) e (Suc c)))"
      using lt Inl quiet by (rule retry_loop_retry)
    have j: "j = nat (m - (a + 1))" using Suc(2) by simp
    have "a + 1 \<le> m" using lt by simp
    with j have IH:
      "1 \<le> fn_calls (snd (retry_loop fn m d b cb (a + 1) e (Suc c)))
       \<and> a + 1 + int (fn_calls (snd (retry_loop fn m d b cb (a + 1) e (Suc c)))) - 1 \<le> m
       \<and> fst (retry_loop fn m d b cb (a + 1) e (Suc c))
           = fn (Suc c + fn_calls (snd (retry_loop fn m d b cb (a + 1) e (Suc c))))
       \<and> (isl (fst (retry_loop fn m d b cb (a + 1) e (Suc c)))
            \<longrightarrow> a + 1 + int (fn_calls (snd (retry_loop fn m d b cb (a + 1) e (Suc c)))) - 1 = m)"
      by (rule Suc(1))
    show ?thesis
      by (subst (1 2 3 4 5 6) step) (use IH in simp)
  next
    case (Inr v)
    with Suc(3) have "retry_loop fn m d b cb a le c = (Inr v, [FnCall])"
      by (rule retry_loop_success)
    with lt Inr show ?thesis by simp
  qed
qed

section \<open>A call from its first attempt\<close>

lemma retryWithBackoff_loop:
  "retryWithBackoff fn opts =
     retry_loop fn (or_default (maxAttempts opts) 3) (or_default (delayMs opts) 1000)
       (or_default (backoff opts) True) (onRetry opts) 1 JUndefined 0"
  by (simp add: retryWithBackoff_def)

lemma upt_1_shift: "[1..<k] = map Suc [0..<k - 1]"
  by (cases k) (simp_all add: map_Suc_upt del: upt_Suc)

lemma failed_prefix:
  assumes "1 \<le> k" and "int k \<le> m"
    and "\<forall>j\<in>{1..<k}. fn j = Inl (err j)"
    and "\<forall>j\<in>{1..<k}. fst (call_onRetry cb (int j) (err j)) = None"
  shows "retry_loop fn m d b cb 1 le 0 =
     (fst (retry_loop fn m d b cb (int k) le' (k - 1)),
      failed_run fn d b (cb \<noteq> None) 1 0 (k - 1)
        @ snd (retry_loop fn m d b cb (int k) le' (k - 1)))"
proof -
  have a: "1 + int (k - 1) \<le> m" using assms(1,2) by simp
  have f: "\<forall>i<k - 1. isl (fn (Suc (0 + i)))"
    using assms(3) by auto
  have q: "\<forall>i<k - 1. fst (call_onRetry cb (1 + int i) (error_of (fn (Suc (0 + i))))) = None"
  proof (intro allI impI)
    fix i assume i: "i < k - 1"
    then have "Suc i \<in> {1..<k}" by auto
    with assms(3,4) have "fn (Suc i) = Inl (err (Suc i))"
      "fst (call_onRetry cb (int (Suc i)) (err (Suc i))) = None" by blast+
    then show "fst (call_onRetry cb (1 + int i) (error_of (fn (Suc (0 + i))))) = None"
      by (simp add: add.commute)
  qed
  have "retry_loop fn m d b cb 1 le 0 =
     (fst (retry_loop fn m d b cb (1 + int (k - 1)) le' (0 + (k - 1))),
      failed_run fn d b (cb \<noteq> None) 1 0 (k - 1)
        @ snd (retry_loop fn m d b cb (1 + int (k - 1)) le' (0 + (k - 1))))"
    using a f q by (rule retry_loop_failed_run)
  moreover have "1 + int (k - 1) = int k" using assms(1) by simp
  ultimately show ?thesis by simp
qed

lemma onRetry_calls_from_start:
  assumes "\<forall>j\<in>{1..<k}. fn j = Inl (err j)"
  shows "onRetry_calls (failed_run fn d b conf 1 0 (k - 1)) =
     (if conf then map (\<lambda>n. (int n, err n)) [1..<k] else [])"
proof -
  have "map (\<lambda>i. (1 + int i, error_of (fn (Suc (0 + i))))) [0..<k - 1]
      = map ((\<lambda>n. (int n, err n)) \<circ> Suc) [0..<k - 1]"
  proof (rule map_cong [OF refl])
    fix i assume "i \<in> set [0..<k - 1]"
    then have "Suc i \<in> {1..<k}" by auto
    with assms have "fn (Suc i) = Inl (err (Suc i))" by blast
    then show "(1 + int i, error_of (fn (Suc (0 + i)))) = ((\<lambda>n. (int n, err n)) \<circ> Suc) i"
      by simp
  qed
  then show ?thesis
    by (subst upt_1_shift) (simp add: onRetry_calls_failed_run del: upt_Suc)
qed

lemma timeouts_from_start:
  "timeouts (failed_run fn d b conf 1 0 (k - 1)) =
     map (\<lambda>n. if b then d * int n else d) [1..<k]"
  by (subst upt_1_shift) (simp add: timeouts_failed_run comp_def add.commute del: upt_Suc)

lemma exhausted_run:
  assumes "1 \<le> N"
    and "\<forall>k\<in>{1..N}. fn k = Inl (err k)"
    and "\<forall>k\<in>{1..<N}. fst (call_onRetry cb (int k) (err k)) = None"
  shows "retry_loop fn (int N) d b cb 1 le 0 =
     (Inl (err N),
      failed_run fn d b (cb \<noteq> None) 1 0 (N - 1) @ [FnCall, ErrorLog (int N) (err N)])"
proof -
  have fails: "\<forall>j\<in>{1..<N}. fn j = Inl (err j)" using assms(2) by auto
  have "fn (Suc (N - 1)) = Inl (err N)" using assms(1,2) by auto
  then have last: "retry_loop fn (int N) d b cb (int N) le (N - 1) =
      (Inl (err N), [FnCall, ErrorLog (int N) (err N)])"
    by (rule retry_loop_exhausted)
  have "retry_loop fn (int N) d b cb 1 le 0 =
     (fst (retry_loop fn (int N) d b cb (int N) le (N - 1)),
      failed_run fn d b (cb \<noteq> None) 1 0 (N - 1)
        @ snd (retry_loop fn (int N) d b cb (int N) le (N - 1)))"
    using assms(1) order_refl fails assms(3) by (rule failed_prefix)
  with last show ?thesis by simp
qed

lemma succeeded_run:
  assumes "1 \<le> k" and "int k \<le> m"
    and "\<forall>j\<in>{1..<k}. fn j = Inl (err j)"
    and "fn k = Inr v"
    and "\<forall>j\<in>{1..<k}. fst (call_onRetry cb (int j) (err j)) = None"
  shows "retry_loop fn m d b cb 1 le 0 =
     (Inr v, failed_run fn d b (cb \<noteq> None) 1 0 (k - 1) @ [FnCall])"
proof -
  have "fn (Suc (k - 1)) = Inr v" using assms(1,4) by simp
  with assms(2) have last: "retry_loop fn m d b cb (int k) le (k - 1) = (Inr v, [FnCall])"
    by (rule retry_loop_success)
  have "retry_loop fn m d b cb 1 le 0 =
     (fst (retry_loop fn m d b cb (int k) le (k - 1)),
      failed_run fn d b (cb \<noteq> None) 1 0 (k - 1)
        @ snd (retry_loop fn m d b cb (int k) le (k - 1)))"
    using assms(1,2,3,5) by (rule failed_prefix)
  with last show ?thesis by simp
qed

lemma quiet_callback:
  assumes "N = 1 \<or> never_throws cb"
  shows "\<forall>k\<in>{1..<N}. fst (call_onRetry cb (int k) (err k)) = None"
  using assms by (auto simp: call_onRetry_never_throws)

section \<open>Exhaustion\<close>

text \<open>
  Claim C1, as amended. Let the operation fail on each of its first \<open>N\<close> invocations,
  let \<open>maxAttempts = N \<ge> 1\<close>, and let the callback \<open>onRetry\<close>, if there is one,
  return normally (nothing is asked of it when \<open>N = 1\<close>). Then the operation is invoked
  exactly \<open>N\<close> times, a configured \<open>onRetry\<close> is called exactly \<open>N - 1\<close> times, with
  the attempt numbers \<open>1, \<dots>, N - 1\<close> in this order and the error of that attempt,
  and exactly \<open>N - 1\<close> delays are awaited; where the products are exact, the delay
  after attempt \<open>n\<close> is the delay of the specification. For \<open>N = 1\<close> there is one
  invocation, no call of \<open>onRetry\<close> and no delay.
\<close>

theorem always_failing_exhausts_attempts:
  assumes "1 \<le> N" and "or_default (maxAttempts opts) 3 = int N"
    and "\<forall>k\<in>{1..N}. fn k = Inl (err k)"
    and "N = 1 \<or> never_throws (onRetry opts)"
  shows "fn_calls (snd (retryWithBackoff fn opts)) = N
       \<and> onRetry_calls (snd (retryWithBackoff fn opts))
           = (if onRetry opts = None then [] else map (\<lambda>n. (int n, err n)) [1..<N])
       \<and> length (timeouts (snd (retryWithBackoff fn opts))) = N - 1
       \<and> ((\<forall>n\<in>{1..<N}. exact_delay (or_default (backoff opts) True)
                           (or_default (delayMs opts) 1000) (int n))
            \<longrightarrow> timeouts (snd (retryWithBackoff fn opts))
                 = map (\<lambda>n. expected_delay (or_default (backoff opts) True)
                               (or_default (delayMs opts) 1000) (int n)) [1..<N])
       \<and> (N = 1 \<longrightarrow> onRetry_calls (snd (retryWithBackoff fn opts)) = []
                    \<and> timeouts (snd (retryWithBackoff fn opts)) = [])"
proof -
  let ?d = "or_default (delayMs opts) 1000" and ?b = "or_default (backoff opts) True"
  have quiet: "\<forall>k\<in>{1..<N}. fst (call_onRetry (onRetry opts) (int k) (err k)) = None"
    using assms(4) by (rule quiet_callback)
  have fails: "\<forall>j\<in>{1..<N}. fn j = Inl (err j)" using assms(3) by auto
  have run: "retryWithBackoff fn opts =
     (Inl (err N),
      failed_run fn ?d ?b (onRetry opts \<noteq> None) 1 0 (N - 1) @ [FnCall, ErrorLog (int N) (err N)])"
    unfolding retryWithBackoff_loop assms(2)
    using assms(1,3) quiet by (rule exhausted_run)
  have calls: "fn_calls (snd (retryWithBackoff fn opts)) = N"
    using assms(1) by (simp add: run)
  have cbs: "onRetry_calls (snd (retryWithBackoff fn opts))
      = (if onRetry opts = None then [] else map (\<lambda>n. (int n, err n)) [1..<N])"
    by (simp only: run snd_conv onRetry_calls_append onRetry_calls_from_start [OF fails]) simp
  have delays: "timeouts (snd (retryWithBackoff fn opts))
      = map (\<lambda>n. expected_delay ?b ?d (int n)) [1..<N]"
    by (simp only: run snd_conv timeouts_append timeouts_from_start)
      (simp add: expected_delay_def)
  have len: "length (timeouts (snd (retryWithBackoff fn opts))) = N - 1"
    by (simp add: delays)
  have single: "N = 1 \<longrightarrow> onRetry_calls (snd (retryWithBackoff fn opts)) = []
      \<and> timeouts (snd (retryWithBackoff fn opts)) = []"
    by (simp add: cbs delays)
  from calls cbs len delays single show ?thesis by blast
qed

text \<open>Three attempts of an operation that always fails, with a callback that returns normally.\<close>

theorem always_failing_exhausts_attempts_witness:
  "fn_calls (snd (retryWithBackoff always_fails (sample_options 3 (Some quiet_observer)))) = 3
   \<and> onRetry_calls (snd (retryWithBackoff always_fails (sample_options 3 (Some quiet_observer))))
       = [(1, JNum 1), (2, JNum 2)]
   \<and> timeouts (snd (retryWithBackoff always_fails (sample_options 3 (Some quiet_observer))))
       = [100, 200]"
proof -
  have h1: "1 \<le> (3::nat)" by simp
  have h2: "or_default (maxAttempts (sample_options 3 (Some quiet_observer))) 3 = int 3"
    by (simp add: sample_options_def)
  have h3: "\<forall>k\<in>{1..3::nat}. always_fails k = Inl (JNum (int k))"
    by (simp add: always_fails_def)
  have h4: "(3::nat) = 1 \<or> never_throws (onRetry (sample_options 3 (Some quiet_observer)))"
    by (simp add: sample_options_def never_throws_def quiet_observer_def)
  have h5: "\<forall>n\<in>{1..<3::nat}. exact_delay
      (or_default (backoff (sample_options 3 (Some quiet_observer))) True)
      (or_default (delayMs (sample_options 3 (Some quiet_observer))) 1000) (int n)"
    by (auto simp: sample_options_def exact_delay_def safe_integer_def)
  show ?thesis
    using always_failing_exhausts_attempts [OF h1 h2 h3 h4] h5
    by (simp add: sample_options_def expected_delay_def upt_rec)
qed

text \<open>
  Without the condition on the callback the counts are wrong (C1 as stated): the
  operation always fails and \<open>maxAttempts = 2\<close>, but the callback throws on the first
  failure; the operation is invoked once, not twice, and no delay is awaited.
\<close>

theorem throwing_observer_cuts_attempts_short:
  "fn_calls (snd (retryWithBackoff always_fails (sample_options 2 (Some throwing_observer)))) = 1
   \<and> timeouts (snd (retryWithBackoff always_fails (sample_options 2 (Some throwing_observer)))) = []"
  by (simp add: retryWithBackoff_def sample_options_def retry_loop.simps always_fails_def
      call_onRetry_def throwing_observer_def)

section \<open>Exhaustion: the propagated error\<close>

text \<open>
  Claim C2, as amended. Let the operation fail on each of its first \<open>N\<close> invocations,
  let \<open>maxAttempts = N \<ge> 1\<close>, and let the callback \<open>onRetry\<close>, if there is one,
  return normally (nothing is asked of it when \<open>N = 1\<close>). Then the call is rejected
  with exactly the error of the \<open>N\<close>-th invocation: that value itself, no wrapper and
  no aggregate, and hence not the first error whenever the two differ.
\<close>

theorem exhaustion_propagates_last_error:
  assumes "1 \<le> N" and "or_default (maxAttempts opts) 3 = int N"
    and "\<forall>k\<in>{1..N}. fn k = Inl (err k)"
    and "N = 1 \<or> never_throws (onRetry opts)"
  shows "fst (retryWithBackoff fn opts) = Inl (err N)
       \<and> (err N \<noteq> err 1 \<longrightarrow> fst (retryWithBackoff fn opts) \<noteq> Inl (err 1))"
proof -
  have quiet: "\<forall>k\<in>{1..<N}. fst (call_onRetry (onRetry opts) (int k) (err k)) = None"
    using assms(4) by (rule quiet_callback)
  have "retryWithBackoff fn opts =
     (Inl (err N),
      failed_run fn (or_default (delayMs opts) 1000) (or_default (backoff opts) True)
          (onRetry opts \<noteq> None) 1 0 (N - 1)
        @ [FnCall, ErrorLog (int N) (err N)])"
    unfolding retryWithBackoff_loop assms(2)
    using assms(1,3) quiet by (rule exhausted_run)
  then show ?thesis by simp
qed

text \<open>
  Three attempts of an operation whose \<open>k\<close>-th failure carries the number \<open>k\<close>: the
  caller sees 3, not 1.
\<close>

theorem exhaustion_propagates_last_error_witness:
  "fst (retryWithBackoff always_fails (sample_options 3 (Some quiet_observer))) = Inl (JNum 3)
   \<and> fst (retryWithBackoff always_fails (sample_options 3 (Some quiet_observer))) \<noteq> Inl (JNum 1)"
proof -
  have h1: "1 \<le> (3::nat)" by simp
  have h2: "or_default (maxAttempts (sample_options 3 (Some quiet_observer))) 3 = int 3"
    by (simp add: sample_options_def)
  have h3: "\<forall>k\<in>{1..3::nat}. always_fails k = Inl (JNum (int k))"
    by (simp add: always_fails_def)
  have h4: "(3::nat) = 1 \<or> never_throws (onRetry (sample_options 3 (Some quiet_observer)))"
    by (simp add: sample_options_def never_throws_def quiet_observer_def)
  show ?thesis
    using exhaustion_propagates_last_error [OF h1 h2 h3 h4] by simp
qed

text \<open>
  Without the condition on the callback the propagated error is another one (C2 as
  stated): the operation always fails and \<open>maxAttempts = 2\<close>, but the call is rejected
  with what the callback threw on the first failure, and the error of a second attempt,
  the number 2, is never seen.
\<close>

theorem observer_error_replaces_last_error:
  "fst (retryWithBackoff always_fails (sample_options 2 (Some throwing_observer)))
     = Inl (JStr ''observer failed'')"
  by (simp add: retryWithBackoff_def sample_options_def retry_loop.simps always_fails_def
      call_onRetry_def throwing_observer_def)

section \<open>Success\<close>

text \<open>
  Claim C4, as amended. Let the operation fail on its invocations \<open>1, \<dots>, k - 1\<close> and
  fulfil with \<open>v\<close> on invocation \<open>k\<close>, where \<open>1 \<le> k \<le> maxAttempts\<close>, and let the
  callback \<open>onRetry\<close>, if there is one, return normally (nothing is asked of it when
  \<open>k = 1\<close>). Then the call fulfils with \<open>v\<close>, the operation is invoked exactly \<open>k\<close>
  times, a configured \<open>onRetry\<close> is called exactly \<open>k - 1\<close> times, for the attempts
  \<open>1, \<dots>, k - 1\<close> in this order, and the call is not rejected.
\<close>

theorem eventual_success:
  assumes "1 \<le> k" and "int k \<le> or_default (maxAttempts opts) 3"
    and "\<forall>j\<in>{1..<k}. fn j = Inl (err j)"
    and "fn k = Inr v"
    and "k = 1 \<or> never_throws (onRetry opts)"
  shows "fst (retryWithBackoff fn opts) = Inr v
       \<and> fn_calls (snd (retryWithBackoff fn opts)) = k
       \<and> onRetry_calls (snd (retryWithBackoff fn opts))
           = (if onRetry opts = None then [] else map (\<lambda>n. (int n, err n)) [1..<k])
       \<and> \<not> isl (fst (retryWithBackoff fn opts))"
proof -
  have quiet: "\<forall>j\<in>{1..<k}. fst (call_onRetry (onRetry opts) (int j) (err j)) = None"
    using assms(5) by (rule quiet_callback)
  have run: "retryWithBackoff fn opts =
     (Inr v,
      failed_run fn (or_default (delayMs opts) 1000) (or_default (backoff opts) True)
          (onRetry opts \<noteq> None) 1 0 (k - 1)
        @ [FnCall])"
    unfolding retryWithBackoff_loop
    using assms(1,2,3,4) quiet by (rule succeeded_run)
  have calls: "fn_calls (snd (retryWithBackoff fn opts)) = k"
    using assms(1) by (simp add: run)
  have cbs: "onRetry_calls (snd (retryWithBackoff fn opts))
      = (if onRetry opts = None then [] else map (\<lambda>n. (int n, err n)) [1..<k])"
    by (simp only: run snd_conv onRetry_calls_append onRetry_calls_from_start [OF assms(3)]) simp
  from run calls cbs show ?thesis by simp
qed

text \<open>
  The scenario of the specification: \<^verbatim>\<open>E1\<close>, \<^verbatim>\<open>E2\<close>, then 42, with
  \<open>maxAttempts = 5\<close>.
\<close>

theorem eventual_success_witness:
  "fst (retryWithBackoff fails_twice (sample_options 5 (Some quiet_observer))) = Inr 42
   \<and> fn_calls (snd (retryWithBackoff fails_twice (sample_options 5 (Some quiet_observer)))) = 3
   \<and> onRetry_calls (snd (retryWithBackoff fails_twice (sample_options 5 (Some quiet_observer))))
       = [(1, JStr ''E1''), (2, JStr ''E2'')]"
proof -
  have h1: "1 \<le> (3::nat)" by simp
  have h2: "int 3 \<le> or_default (maxAttempts (sample_options 5 (Some quiet_observer))) 3"
    by (simp add: sample_options_def)
  have h3: "\<forall>j\<in>{1..<3::nat}. fails_twice j = Inl (JStr (''E'' @ (if j = 1 then ''1'' else ''2'')))"
    by (auto simp: fails_twice_def)
  have h4: "fails_twice 3 = Inr 42"
    by (simp add: fails_twice_def)
  have h5: "(3::nat) = 1 \<or> never_throws (onRetry (sample_options 5 (Some quiet_observer)))"
    by (simp add: sample_options_def never_throws_def quiet_observer_def)
  show ?thesis
    using eventual_success [OF h1 h2 h3 h4 h5]
    by (simp add: sample_options_def upt_rec)
qed

text \<open>
  Without the condition on the callback the success is never reached (C4 as stated):
  the operation would fulfil on its third invocation, and \<open>maxAttempts = 5\<close>, but the
  callback throws on the second failure; the call is rejected and the operation has
  been invoked twice.
\<close>

theorem throwing_observer_prevents_success:
  "fst (retryWithBackoff fails_twice (sample_options 5 (Some late_throwing_observer)))
     = Inl (JStr ''observer failed'')
   \<and> fn_calls (snd (retryWithBackoff fails_twice (sample_options 5 (Some late_throwing_observer)))) = 2"
  by (simp add: retryWithBackoff_def sample_options_def retry_loop.simps fails_twice_def
      call_onRetry_def late_throwing_observer_def)

text \<open>
  Claim C5, as amended. Let the first invocation of the operation fulfil with \<open>v\<close> and
  let \<open>maxAttempts \<ge> 1\<close>. Then, whatever \<open>delayMs\<close>, \<open>backoff\<close> and \<open>onRetry\<close> are,
  the call fulfils with \<open>v\<close> and its only event is that one invocation: no delay is
  awaited and \<open>onRetry\<close> is not called.
\<close>

theorem first_try_success:
  assumes "fn 1 = Inr v" and "1 \<le> or_default (maxAttempts opts) 3"
  shows "retryWithBackoff fn opts = (Inr v, [FnCall])
       \<and> fn_calls (snd (retryWithBackoff fn opts)) = 1
       \<and> timeouts (snd (retryWithBackoff fn opts)) = []
       \<and> onRetry_calls (snd (retryWithBackoff fn opts)) = []"
proof -
  from assms(1) have "fn (Suc 0) = Inr v" by simp
  with assms(2) have "retryWithBackoff fn opts = (Inr v, [FnCall])"
    unfolding retryWithBackoff_loop by (rule retry_loop_success)
  then show ?thesis by simp
qed

text \<open>
  A single allowed attempt of an operation that succeeds; the callback, which would
  throw, is never called.
\<close>

theorem first_try_success_witness:
  "retryWithBackoff succeeds (sample_options 1 (Some throwing_observer)) = (Inr 42, [FnCall])"
proof -
  have h1: "succeeds 1 = Inr 42" by (simp add: succeeds_def)
  have h2: "1 \<le> or_default (maxAttempts (sample_options 1 (Some throwing_observer))) 3"
    by (simp add: sample_options_def)
  show ?thesis
    using first_try_success [where fn = succeeds, OF h1 h2] by simp
qed

text \<open>
  The bound on \<open>maxAttempts\<close> is needed (C5 as stated, "regardless of maxAttempts"):
  with \<open>maxAttempts = 0\<close> the loop condition \<^verbatim>\<open>attempt <= maxAttempts\<close> fails at once, an
  operation that would succeed is never invoked, and the call is rejected.
\<close>

theorem no_attempt_without_positive_maxAttempts:
  "retryWithBackoff succeeds (sample_options 0 None) = (Inl JUndefined, [])"
  by (simp add: retryWithBackoff_def sample_options_def retry_loop.simps)

section \<open>Every call settles\<close>

text \<open>
  Claim C6. Let \<open>maxAttempts \<ge> 1\<close> and let the callback \<open>onRetry\<close>, if there is one,
  never throw. Then, for every operation, the call settles in exactly one of the two
  ways, fulfilled with a value or rejected with an error. Moreover its settlement is
  the settlement of the last invocation of the operation, of which there is at least
  one and at most \<open>maxAttempts\<close>; and the call is rejected only when all \<open>maxAttempts\<close>
  attempts have been made. So no error is swallowed and no call ends without an
  outcome.
\<close>

theorem settles_exactly_one_way:
  assumes "1 \<le> or_default (maxAttempts opts) 3" and "never_throws (onRetry opts)"
  shows "((\<exists>v. fst (retryWithBackoff fn opts) = Inr v)
            \<noteq> (\<exists>e. fst (retryWithBackoff fn opts) = Inl e))
       \<and> 1 \<le> fn_calls (snd (retryWithBackoff fn opts))
       \<and> int (fn_calls (snd (retryWithBackoff fn opts))) \<le> or_default (maxAttempts opts) 3
       \<and> fst (retryWithBackoff fn opts) = fn (fn_calls (snd (retryWithBackoff fn opts)))
       \<and> (isl (fst (retryWithBackoff fn opts))
            \<longrightarrow> int (fn_calls (snd (retryWithBackoff fn opts))) = or_default (maxAttempts opts) 3)"
proof -
  have one: "(\<exists>v. fst (retryWithBackoff fn opts) = Inr v)
      \<noteq> (\<exists>e. fst (retryWithBackoff fn opts) = Inl e)"
    by (cases "fst (retryWithBackoff fn opts)") simp_all
  have "(1::int) \<le> or_default (maxAttempts opts) 3" using assms(1) by simp
  from retry_loop_settles [OF this assms(2), of fn "or_default (delayMs opts) 1000"
      "or_default (backoff opts) True" JUndefined 0]
  have "1 \<le> fn_calls (snd (retryWithBackoff fn opts))
       \<and> int (fn_calls (snd (retryWithBackoff fn opts))) \<le> or_default (maxAttempts opts) 3
       \<and> fst (retryWithBackoff fn opts) = fn (fn_calls (snd (retryWithBackoff fn opts)))
       \<and> (isl (fst (retryWithBackoff fn opts))
            \<longrightarrow> int (fn_calls (snd (retryWithBackoff fn opts))) = or_default (maxAttempts opts) 3)"
    unfolding retryWithBackoff_loop by simp
  with one show ?thesis by blast
qed

text \<open>
  Two allowed attempts of the operation that fails twice: the call is rejected with
  the second error, which is what the second and last invocation settled to.
\<close>

theorem settles_exactly_one_way_witness:
  "fst (retryWithBackoff fails_twice (sample_options 2 (Some quiet_observer)))
     = fails_twice (fn_calls (snd (retryWithBackoff fails_twice (sample_options 2 (Some quiet_observer)))))
   \<and> fn_calls (snd (retryWithBackoff fails_twice (sample_options 2 (Some quiet_observer)))) = 2
   \<and> fst (retryWithBackoff fails_twice (sample_options 2 (Some quiet_observer))) = Inl (JStr ''E2'')"
proof -
  have h1: "1 \<le> or_default (maxAttempts (sample_options 2 (Some quiet_observer))) 3"
    by (simp add: sample_options_def)
  have h2: "never_throws (onRetry (sample_options 2 (Some quiet_observer)))"
    by (simp add: sample_options_def never_throws_def quiet_observer_def)
  have run: "retryWithBackoff fails_twice (sample_options 2 (Some quiet_observer))
      = (Inl (JStr ''E2''),
         [FnCall, WarnLog 1 100 (JStr ''E1''), OnRetryCall 1 (JStr ''E1''), Timeout 100,
          FnCall, ErrorLog 2 (JStr ''E2'')])"
    by (simp add: retryWithBackoff_def sample_options_def retry_loop.simps fails_twice_def
        call_onRetry_def quiet_observer_def)
  show ?thesis
    using settles_exactly_one_way [OF h1 h2, of fails_twice] by (simp add: run)
qed

section \<open>Defaults\<close>

text \<open>
  Claim C7. A call with the empty configuration gives the same settlement and the same
  events, in the same order, as a call with \<open>maxAttempts = 3\<close>, \<open>delayMs = 1000\<close> and
  \<open>backoff\<close> enabled; and, for any configuration, replacing every omitted option by
  its documented default changes nothing.
\<close>

theorem omitted_options_take_defaults:
  "retryWithBackoff fn empty_options = retryWithBackoff fn documented_defaults
   \<and> retryWithBackoff fn opts = retryWithBackoff fn (with_defaults opts)"
  by (simp add: retryWithBackoff_def empty_options_def documented_defaults_def with_defaults_def)

text \<open>
  An operation that always fails, called with no options: three attempts, delays of
  1000 and 2000.
\<close>

theorem omitted_options_take_defaults_witness:
  "retryWithBackoff always_fails empty_options = retryWithBackoff always_fails documented_defaults
   \<and> retryWithBackoff always_fails documented_defaults
       = (Inl (JNum 3),
          [FnCall, WarnLog 1 1000 (JNum 1), Timeout 1000,
           FnCall, WarnLog 2 2000 (JNum 2), Timeout 2000,
           FnCall, ErrorLog 3 (JNum 3)])"
proof -
  have "retryWithBackoff always_fails documented_defaults
      = (Inl (JNum 3),
          [FnCall, WarnLog 1 1000 (JNum 1), Timeout 1000,
           FnCall, WarnLog 2 2000 (JNum 2), Timeout 2000,
           FnCall, ErrorLog 3 (JNum 3)])"
    by (simp add: retryWithBackoff_def documented_defaults_def retry_loop.simps always_fails_def
        call_onRetry_def)
  then show ?thesis
    using omitted_options_take_defaults [of always_fails empty_options] by simp
qed

section \<open>A \<open>maxAttempts\<close> that is not positive\<close>

text \<open>
  Claim C9. Let \<open>maxAttempts \<le> 0\<close>. Then the call does nothing (no invocation of the
  operation, no call of \<open>onRetry\<close>, no log, no delay) and is rejected with
  \<^verbatim>\<open>undefined\<close>, the value \<^verbatim>\<open>lastError\<close> still has.
\<close>

theorem nonpositive_maxAttempts_throws_undefined:
  assumes "or_default (maxAttempts opts) 3 \<le> 0"
  shows "retryWithBackoff fn opts = (Inl JUndefined, [])
       \<and> fn_calls (snd (retryWithBackoff fn opts)) = 0
       \<and> onRetry_calls (snd (retryWithBackoff fn opts)) = []"
proof -
  from assms have "\<not> 1 \<le> or_default (maxAttempts opts) 3" by simp
  then have "retryWithBackoff fn opts = (Inl JUndefined, [])"
    unfolding retryWithBackoff_loop by (rule retry_loop_done)
  then show ?thesis by simp
qed

text \<open>
  \<open>maxAttempts = -1\<close>.
\<close>

theorem nonpositive_maxAttempts_throws_undefined_witness:
  "retryWithBackoff always_fails (sample_options (- 1) (Some quiet_observer)) = (Inl JUndefined, [])"
proof -
  have h: "or_default (maxAttempts (sample_options (- 1) (Some quiet_observer))) 3 \<le> 0"
    by (simp add: sample_options_def)
  show ?thesis
    using nonpositive_maxAttempts_throws_undefined [OF h, of always_fails] by simp
qed

section \<open>The attempt at a given position\<close>

lemma retry_loop_failed_attempt:
  assumes "a < m" and "fn (Suc c) = Inl e"
  shows "retry_loop fn m d b cb a le c =
     (case call_onRetry cb a e of
        (Some x, cb_events) \<Rightarrow>
          (Inl x, [FnCall, WarnLog a (expected_delay b d a) e] @ cb_events)
      | (None, cb_events) \<Rightarrow>
          (fst (retry_loop fn m d b cb (a + 1) e (Suc c)),
           [FnCall, WarnLog a (expected_delay b d a) e] @ cb_events
             @ [Timeout (expected_delay b d a)]
             @ snd (retry_loop fn m d b cb (a + 1) e (Suc c))))"
  using assms
  by (subst retry_loop.simps)
    (simp add: expected_delay_def Let_def split: prod.splits option.splits)

lemma failing_attempt:
  assumes "1 \<le> n" and "int n < m"
    and "n \<le> fn_calls (snd (retry_loop fn m d b cb 1 le 0))"
    and "fn n = Inl e"
  shows "retry_loop fn m d b cb 1 le 0 =
     (case call_onRetry cb (int n) e of
        (Some x, cb_events) \<Rightarrow>
          (Inl x,
           failed_run fn d b (cb \<noteq> None) 1 0 (n - 1)
             @ [FnCall, WarnLog (int n) (expected_delay b d (int n)) e] @ cb_events)
      | (None, cb_events) \<Rightarrow>
          (fst (retry_loop fn m d b cb (int n + 1) e n),
           failed_run fn d b (cb \<noteq> None) 1 0 (n - 1)
             @ [FnCall, WarnLog (int n) (expected_delay b d (int n)) e] @ cb_events
             @ [Timeout (expected_delay b d (int n))]
             @ snd (retry_loop fn m d b cb (int n + 1) e n)))"
proof -
  from assms(1,3) have "n - 1 < fn_calls (snd (retry_loop fn m d b cb 1 le 0))" by simp
  then have reached: "1 + int (n - 1) \<le> m" "\<forall>i<n - 1. isl (fn (Suc (0 + i)))"
    "\<forall>i<n - 1. fst (call_onRetry cb (1 + int i) (error_of (fn (Suc (0 + i))))) = None"
    using attempt_reached by blast+
  have pre: "retry_loop fn m d b cb 1 le 0 =
     (fst (retry_loop fn m d b cb (1 + int (n - 1)) le (0 + (n - 1))),
      failed_run fn d b (cb \<noteq> None) 1 0 (n - 1)
        @ snd (retry_loop fn m d b cb (1 + int (n - 1)) le (0 + (n - 1))))"
    using reached by (rule retry_loop_failed_run)
  have idx: "1 + int (n - 1) = int n" "0 + (n - 1) = n - 1" "Suc (n - 1) = n"
    using assms(1) by simp_all
  from assms(4) have "fn (Suc (n - 1)) = Inl e" by (simp only: idx)
  with assms(2) have here: "retry_loop fn m d b cb (int n) le (n - 1) =
     (case call_onRetry cb (int n) e of
        (Some x, cb_events) \<Rightarrow>
          (Inl x, [FnCall, WarnLog (int n) (expected_delay b d (int n)) e] @ cb_events)
      | (None, cb_events) \<Rightarrow>
          (fst (retry_loop fn m d b cb (int n + 1) e (Suc (n - 1))),
           [FnCall, WarnLog (int n) (expected_delay b d (int n)) e] @ cb_events
             @ [Timeout (expected_delay b d (int n))]
             @ snd (retry_loop fn m d b cb (int n + 1) e (Suc (n - 1)))))"
    by (rule retry_loop_failed_attempt)
  show ?thesis
    unfolding pre idx here by (simp split: prod.splits option.splits)
qed

text \<open>Two complete runs, computed from the definitions.\<close>

lemma fails_twice_run:
  "retryWithBackoff fails_twice (sample_options 5 (Some quiet_observer)) =
     (Inr 42,
      [FnCall, WarnLog 1 100 (JStr ''E1''), OnRetryCall 1 (JStr ''E1''), Timeout 100,
       FnCall, WarnLog 2 200 (JStr ''E2''), OnRetryCall 2 (JStr ''E2''), Timeout 200,
       FnCall])"
  by (simp add: retryWithBackoff_def sample_options_def retry_loop.simps fails_twice_def
      call_onRetry_def quiet_observer_def)

lemma late_throwing_run:
  "retryWithBackoff always_fails (sample_options 5 (Some late_throwing_observer)) =
     (Inl (JStr ''observer failed''),
      [FnCall, WarnLog 1 100 (JNum 1), OnRetryCall 1 (JNum 1), Timeout 100,
       FnCall, WarnLog 2 200 (JNum 2), OnRetryCall 2 (JNum 2)])"
  by (simp add: retryWithBackoff_def sample_options_def retry_loop.simps always_fails_def
      call_onRetry_def late_throwing_observer_def)

section \<open>One failed attempt: delay and callback\<close>

text \<open>
  Claim C3. Let attempt \<open>n\<close> take place and fail with \<open>e\<close>, where \<open>n < maxAttempts\<close>.
  Then the events of the call are: first those of the attempts before (\<open>n - 1\<close>
  invocations, \<open>n - 1\<close> delays); then the invocation and the warning that carries the
  chosen delay; then, if a callback is configured, the call \<open>onRetry(n, e)\<close>; and only
  then, unless that call threw, the timeout of the chosen delay. The chosen delay is
  \<open>delayMs * n\<close> when backoff is enabled and \<open>delayMs\<close> when it is disabled; its value
  is stated for safe integers, where the product of the code is the exact one.
\<close>

theorem retry_delay_and_callback_order:
  assumes "1 \<le> n" and "int n < or_default (maxAttempts opts) 3"
    and "n \<le> fn_calls (snd (retryWithBackoff fn opts))"
    and "fn n = Inl e"
  shows "\<exists>delay pre post.
       snd (retryWithBackoff fn opts) = pre @ FnCall # WarnLog (int n) delay e # post
       \<and> fn_calls pre = n - 1 \<and> length (timeouts pre) = n - 1
       \<and> (exact_delay (or_default (backoff opts) True)
             (or_default (delayMs opts) 1000) (int n)
            \<longrightarrow> delay = expected_delay (or_default (backoff opts) True)
                          (or_default (delayMs opts) 1000) (int n))
       \<and> (case onRetry opts of
            None \<Rightarrow> \<exists>rest. post = Timeout delay # rest
          | Some cb \<Rightarrow>
              \<exists>rest. post = OnRetryCall (int n) e # rest
                \<and> (cb (int n) e = None \<longrightarrow> (\<exists>rest'. rest = Timeout delay # rest')))"
proof -
  let ?m = "or_default (maxAttempts opts) 3" and ?d = "or_default (delayMs opts) 1000"
    and ?b = "or_default (backoff opts) True"
  let ?pre = "failed_run fn ?d ?b (onRetry opts \<noteq> None) 1 0 (n - 1)"
  have shape: "retryWithBackoff fn opts =
     (case call_onRetry (onRetry opts) (int n) e of
        (Some x, cb_events) \<Rightarrow>
          (Inl x, ?pre @ [FnCall, WarnLog (int n) (expected_delay ?b ?d (int n)) e] @ cb_events)
      | (None, cb_events) \<Rightarrow>
          (fst (retry_loop fn ?m ?d ?b (onRetry opts) (int n + 1) e n),
           ?pre @ [FnCall, WarnLog (int n) (expected_delay ?b ?d (int n)) e] @ cb_events
             @ [Timeout (expected_delay ?b ?d (int n))]
             @ snd (retry_loop fn ?m ?d ?b (onRetry opts) (int n + 1) e n)))"
    unfolding retryWithBackoff_loop
    using assms unfolding retryWithBackoff_loop by (rule failing_attempt)
  have pre: "fn_calls ?pre = n - 1" "length (timeouts ?pre) = n - 1"
    by (simp_all add: timeouts_failed_run)
  let ?delay = "expected_delay ?b ?d (int n)"
  let ?rest = "snd (retry_loop fn ?m ?d ?b (onRetry opts) (int n + 1) e n)"
  show ?thesis
  proof (cases "onRetry opts")
    case None
    then have "snd (retryWithBackoff fn opts)
        = ?pre @ FnCall # WarnLog (int n) ?delay e # Timeout ?delay # ?rest"
      by (simp add: shape call_onRetry_def)
    with None pre show ?thesis
      by (intro exI [of _ ?delay] exI [of _ ?pre] exI [of _ "Timeout ?delay # ?rest"]) simp
  next
    case (Some cb)
    show ?thesis
    proof (cases "cb (int n) e")
      case None
      with Some have "snd (retryWithBackoff fn opts)
          = ?pre @ FnCall # WarnLog (int n) ?delay e
              # OnRetryCall (int n) e # Timeout ?delay # ?rest"
        by (simp add: shape call_onRetry_def)
      with None Some pre show ?thesis
        by (intro exI [of _ ?delay] exI [of _ ?pre]
            exI [of _ "OnRetryCall (int n) e # Timeout ?delay # ?rest"]) simp
    next
      case thrown: (Some x)
      with Some have "snd (retryWithBackoff fn opts)
          = ?pre @ FnCall # WarnLog (int n) ?delay e # [OnRetryCall (int n) e]"
        by (simp add: shape call_onRetry_def)
      with thrown Some pre show ?thesis
        by (intro exI [of _ ?delay] exI [of _ ?pre] exI [of _ "[OnRetryCall (int n) e]"]) simp
    qed
  qed
qed

text \<open>
  The second attempt of the specification's scenario (\<open>delayMs = 100\<close>, backoff
  enabled): \<open>onRetry(2, E2)\<close>, then a delay of 200.
\<close>

theorem retry_delay_and_callback_order_witness:
  "\<exists>pre post.
     snd (retryWithBackoff fails_twice (sample_options 5 (Some quiet_observer)))
       = pre @ FnCall # WarnLog 2 200 (JStr ''E2'') # post
     \<and> fn_calls pre = 1 \<and> length (timeouts pre) = 1
     \<and> (\<exists>rest. post = OnRetryCall 2 (JStr ''E2'') # rest
           \<and> (\<exists>rest'. rest = Timeout 200 # rest'))"
proof -
  have h1: "1 \<le> (2::nat)" by simp
  have h2: "int 2 < or_default (maxAttempts (sample_options 5 (Some quiet_observer))) 3"
    by (simp add: sample_options_def)
  have h3: "2 \<le> fn_calls (snd (retryWithBackoff fails_twice (sample_options 5 (Some quiet_observer))))"
    by (simp add: fails_twice_run)
  have h4: "fails_twice 2 = Inl (JStr ''E2'')"
    by (simp add: fails_twice_def)
  have h5: "exact_delay (or_default (backoff (sample_options 5 (Some quiet_observer))) True)
      (or_default (delayMs (sample_options 5 (Some quiet_observer))) 1000) (int 2)"
    by (simp add: sample_options_def exact_delay_def safe_integer_def)
  from retry_delay_and_callback_order [where fn = fails_twice, OF h1 h2 h3 h4]
  obtain delay pre post where
    tr: "snd (retryWithBackoff fails_twice (sample_options 5 (Some quiet_observer)))
          = pre @ FnCall # WarnLog (int 2) delay (JStr ''E2'') # post"
    and cnt: "fn_calls pre = 2 - 1" "length (timeouts pre) = 2 - 1"
    and val: "exact_delay (or_default (backoff (sample_options 5 (Some quiet_observer))) True)
          (or_default (delayMs (sample_options 5 (Some quiet_observer))) 1000) (int 2)
        \<longrightarrow> delay = expected_delay
              (or_default (backoff (sample_options 5 (Some quiet_observer))) True)
              (or_default (delayMs (sample_options 5 (Some quiet_observer))) 1000) (int 2)"
    and cb: "case onRetry (sample_options 5 (Some quiet_observer)) of
            None \<Rightarrow> \<exists>rest. post = Timeout delay # rest
          | Some cb \<Rightarrow>
              \<exists>rest. post = OnRetryCall (int 2) (JStr ''E2'') # rest
                \<and> (cb (int 2) (JStr ''E2'') = None \<longrightarrow> (\<exists>rest'. rest = Timeout delay # rest'))"
    by blast
  from val h5 have delay: "delay = 200"
    by (simp add: sample_options_def expected_delay_def)
  from cb have "\<exists>rest. post = OnRetryCall 2 (JStr ''E2'') # rest
      \<and> (\<exists>rest'. rest = Timeout 200 # rest')"
    by (simp add: sample_options_def quiet_observer_def delay)
  with tr cnt delay show ?thesis
    by (intro exI [of _ pre] exI [of _ post]) simp
qed

section \<open>A callback that throws\<close>

text \<open>
  Claim C8. Let attempt \<open>n\<close> take place and fail with \<open>e\<close>, where \<open>n < maxAttempts\<close>, and
  let the callback throw \<open>x\<close> when called with \<open>(n, e)\<close>. Then the call is rejected
  with \<open>x\<close>; the operation has been invoked exactly \<open>n\<close> times; the delays awaited are
  those after the attempts \<open>1, \<dots>, n - 1\<close> and no other (\<open>n - 1\<close> of them, with the
  values of the specification where the products are exact); and the call of the
  callback is the last event, so that neither a delay nor an invocation follows it.
\<close>

theorem onRetry_exception_aborts:
  assumes "1 \<le> n" and "int n < or_default (maxAttempts opts) 3"
    and "n \<le> fn_calls (snd (retryWithBackoff fn opts))"
    and "fn n = Inl e"
    and "onRetry opts = Some cb" and "cb (int n) e = Some x"
  shows "fst (retryWithBackoff fn opts) = Inl x
       \<and> fn_calls (snd (retryWithBackoff fn opts)) = n
       \<and> length (timeouts (snd (retryWithBackoff fn opts))) = n - 1
       \<and> ((\<forall>i\<in>{1..<n}. exact_delay (or_default (backoff opts) True)
                           (or_default (delayMs opts) 1000) (int i))
            \<longrightarrow> timeouts (snd (retryWithBackoff fn opts))
                 = map (\<lambda>i. expected_delay (or_default (backoff opts) True)
                               (or_default (delayMs opts) 1000) (int i)) [1..<n])
       \<and> last (snd (retryWithBackoff fn opts)) = OnRetryCall (int n) e"
proof -
  let ?m = "or_default (maxAttempts opts) 3" and ?d = "or_default (delayMs opts) 1000"
    and ?b = "or_default (backoff opts) True"
  let ?pre = "failed_run fn ?d ?b (onRetry opts \<noteq> None) 1 0 (n - 1)"
  have "retryWithBackoff fn opts =
     (case call_onRetry (onRetry opts) (int n) e of
        (Some x, cb_events) \<Rightarrow>
          (Inl x, ?pre @ [FnCall, WarnLog (int n) (expected_delay ?b ?d (int n)) e] @ cb_events)
      | (None, cb_events) \<Rightarrow>
          (fst (retry_loop fn ?m ?d ?b (onRetry opts) (int n + 1) e n),
           ?pre @ [FnCall, WarnLog (int n) (expected_delay ?b ?d (int n)) e] @ cb_events
             @ [Timeout (expected_delay ?b ?d (int n))]
             @ snd (retry_loop fn ?m ?d ?b (onRetry opts) (int n + 1) e n)))"
    unfolding retryWithBackoff_loop
    using assms(1-4) unfolding retryWithBackoff_loop by (rule failing_attempt)
  then have run: "retryWithBackoff fn opts =
     (Inl x, ?pre @ [FnCall, WarnLog (int n) (expected_delay ?b ?d (int n)) e,
                     OnRetryCall (int n) e])"
    by (simp add: call_onRetry_def assms(5,6))
  have calls: "fn_calls (snd (retryWithBackoff fn opts)) = n"
    using assms(1) by (simp add: run)
  have delays: "timeouts (snd (retryWithBackoff fn opts))
      = map (\<lambda>i. expected_delay ?b ?d (int i)) [1..<n]"
    by (simp only: run snd_conv timeouts_append timeouts_from_start)
      (simp add: expected_delay_def)
  have len: "length (timeouts (snd (retryWithBackoff fn opts))) = n - 1"
    by (simp add: delays)
  have final: "last (snd (retryWithBackoff fn opts)) = OnRetryCall (int n) e"
    by (simp add: run)
  from run calls delays len final show ?thesis by simp
qed

text \<open>
  A callback that throws on the second failure: two invocations, the delay after the
  first attempt only.
\<close>

theorem onRetry_exception_aborts_witness:
  "fst (retryWithBackoff always_fails (sample_options 5 (Some late_throwing_observer)))
     = Inl (JStr ''observer failed'')
   \<and> fn_calls (snd (retryWithBackoff always_fails (sample_options 5 (Some late_throwing_observer)))) = 2
   \<and> timeouts (snd (retryWithBackoff always_fails (sample_options 5 (Some late_throwing_observer))))
       = [100]
   \<and> last (snd (retryWithBackoff always_fails (sample_options 5 (Some late_throwing_observer))))
       = OnRetryCall 2 (JNum 2)"
proof -
  have h1: "1 \<le> (2::nat)" by simp
  have h2: "int 2 < or_default (maxAttempts (sample_options 5 (Some late_throwing_observer))) 3"
    by (simp add: sample_options_def)
  have h3: "2 \<le> fn_calls (snd (retryWithBackoff always_fails (sample_options 5 (Some late_throwing_observer))))"
    by (simp add: late_throwing_run)
  have h4: "always_fails 2 = Inl (JNum 2)"
    by (simp add: always_fails_def)
  have h5: "onRetry (sample_options 5 (Some late_throwing_observer)) = Some late_throwing_observer"
    by (simp add: sample_options_def)
  have h6: "late_throwing_observer (int 2) (JNum 2) = Some (JStr ''observer failed'')"
    by (simp add: late_throwing_observer_def)
  have h7: "\<forall>i\<in>{1..<2::nat}. exact_delay
      (or_default (backoff (sample_options 5 (Some late_throwing_observer))) True)
      (or_default (delayMs (sample_options 5 (Some late_throwing_observer))) 1000) (int i)"
    by (auto simp: sample_options_def exact_delay_def safe_integer_def)
  show ?thesis
    using onRetry_exception_aborts [where fn = always_fails, OF h1 h2 h3 h4 h5 h6] h7
    by (simp add: sample_options_def expected_delay_def upt_rec)
qed

section \<open>The classifier of network errors\<close>

lemma str_includes_sublist: "str_includes s p \<longleftrightarrow> sublist p s"
  by (induction s) (simp_all add: sublist_Cons_right)

lemma str_includes_set: "str_includes s p \<Longrightarrow> set p \<subseteq> set s"
  by (simp add: str_includes_sublist set_mono_sublist)

lemma toLowerCase_char_not_upper: "toLowerCase_char c \<notin> set upper_letters"
proof (cases "map_of (zip upper_letters lower_letters) c")
  case None
  then have "c \<notin> set upper_letters"
    by (subst (asm) map_of_zip_is_None) (simp_all add: upper_letters_def lower_letters_def)
  with None show ?thesis by (simp add: toLowerCase_char_def)
next
  case (Some l)
  then have "l \<in> set lower_letters"
    by (meson map_of_SomeD set_zip_rightD)
  moreover have "set lower_letters \<inter> set upper_letters = {}"
    by (simp add: upper_letters_def lower_letters_def)
  ultimately have "l \<notin> set upper_letters" by blast
  with Some show ?thesis by (simp add: toLowerCase_char_def)
qed

lemma toLowerCase_no_upper:
  assumes "c \<in> set (toLowerCase s)"
  shows "c \<notin> set upper_letters"
  using assms toLowerCase_char_not_upper by (auto simp: toLowerCase_def)

lemma upper_pattern_never_matches:
  assumes "c \<in> set p" and "c \<in> set upper_letters"
  shows "\<not> str_includes (toLowerCase s) p"
proof
  assume "str_includes (toLowerCase s) p"
  then have "set p \<subseteq> set (toLowerCase s)" by (rule str_includes_set)
  with assms(1) have "c \<in> set (toLowerCase s)" by blast
  with assms(2) show False using toLowerCase_no_upper by blast
qed

lemma ERR_NETWORK_never_matches: "\<not> str_includes (toLowerCase s) ''ERR_NETWORK''"
  by (rule upper_pattern_never_matches [of "CHR ''E''"]) (simp_all add: upper_letters_def)

lemma ERR_INTERNET_DISCONNECTED_never_matches:
  "\<not> str_includes (toLowerCase s) ''ERR_INTERNET_DISCONNECTED''"
  by (rule upper_pattern_never_matches [of "CHR ''E''"]) (simp_all add: upper_letters_def)

lemma matches_lowercase_patterns:
  "list_ex (\<lambda>msg. str_includes (toLowerCase s) msg) networkErrorMessages
     \<longleftrightarrow> (\<exists>p\<in>set lowercase_patterns. str_includes (toLowerCase s) p)"
  by (simp add: networkErrorMessages_def lowercase_patterns_def ERR_NETWORK_never_matches
      ERR_INTERNET_DISCONNECTED_never_matches)

lemma isNetworkError_string_message:
  assumes "get_message error = JStr s"
  shows "isNetworkError error = Inr (\<exists>p\<in>set lowercase_patterns. str_includes (toLowerCase s) p)"
  using assms by (simp add: isNetworkError_def matches_lowercase_patterns)

lemma isNetworkError_no_message:
  assumes "get_message error = JUndefined \<or> get_message error = JNull"
  shows "isNetworkError error = Inr False"
  using assms by (auto simp: isNetworkError_def networkErrorMessages_def)

lemma isNetworkError_other_message:
  assumes "get_message error \<noteq> JUndefined" and "get_message error \<noteq> JNull"
    and "\<forall>s. get_message error \<noteq> JStr s"
  shows "isNetworkError error = Inl TypeError"
  using assms by (cases "get_message error") (simp_all add: isNetworkError_def)

text \<open>
  Claim C10, as amended. \<^verbatim>\<open>isNetworkError\<close> returns \<^verbatim>\<open>true\<close> exactly when the error
  has a string message that, lowercased, contains one of the five lowercase patterns.
  No lowercased string contains \<^verbatim>\<open>ERR_NETWORK\<close> or \<^verbatim>\<open>ERR_INTERNET_DISCONNECTED\<close>, so
  these two entries never match and the list of seven decides what the five lowercase
  patterns decide. And for an error that is \<^verbatim>\<open>null\<close> or
  \<^verbatim>\<open>undefined\<close>, or whose message is missing, \<^verbatim>\<open>undefined\<close> or \<^verbatim>\<open>null\<close>, the
  function returns \<^verbatim>\<open>false\<close> and does not throw.
\<close>

theorem isNetworkError_characterisation:
  "(isNetworkError error = Inr True \<longleftrightarrow>
      (\<exists>s. get_message error = JStr s
         \<and> (\<exists>p\<in>set lowercase_patterns. str_includes (toLowerCase s) p)))
   \<and> \<not> str_includes (toLowerCase t) ''ERR_NETWORK''
   \<and> \<not> str_includes (toLowerCase t) ''ERR_INTERNET_DISCONNECTED''
   \<and> (list_ex (\<lambda>msg. str_includes (toLowerCase t) msg) networkErrorMessages
        \<longleftrightarrow> (\<exists>p\<in>set lowercase_patterns. str_includes (toLowerCase t) p))
   \<and> (error = JUndefined \<or> error = JNull
        \<or> get_message error = JUndefined \<or> get_message error = JNull
      \<longrightarrow> isNetworkError error = Inr False)"
proof -
  have iff: "isNetworkError error = Inr True \<longleftrightarrow>
      (\<exists>s. get_message error = JStr s
         \<and> (\<exists>p\<in>set lowercase_patterns. str_includes (toLowerCase s) p))"
  proof (cases "get_message error")
    case (JStr u)
    then show ?thesis by (simp add: isNetworkError_string_message)
  qed (simp_all add: isNetworkError_def networkErrorMessages_def)
  have none: "error = JUndefined \<or> error = JNull
        \<or> get_message error = JUndefined \<or> get_message error = JNull
      \<longrightarrow> isNetworkError error = Inr False"
    using isNetworkError_no_message by auto
  from iff none ERR_NETWORK_never_matches [of t] ERR_INTERNET_DISCONNECTED_never_matches [of t]
    matches_lowercase_patterns [of t]
  show ?thesis by blast
qed

text \<open>
  A message in mixed case that matches, an error object without a message, and the
  first upper-case entry tried on itself.
\<close>

theorem isNetworkError_characterisation_witness:
  "isNetworkError (JObj [(''message'', JStr ''Network Request Failed'')]) = Inr True
   \<and> isNetworkError (JObj [(''code'', JStr ''unavailable'')]) = Inr False
   \<and> \<not> str_includes (toLowerCase ''ERR_NETWORK'') ''ERR_NETWORK''"
proof -
  let ?e = "JObj [(''message'', JStr ''Network Request Failed'')]"
  have "get_message ?e = JStr ''Network Request Failed''" by simp
  moreover have "\<exists>p\<in>set lowercase_patterns.
      str_includes (toLowerCase ''Network Request Failed'') p"
    by (simp add: lowercase_patterns_def toLowerCase_def toLowerCase_char_def
        upper_letters_def lower_letters_def)
  ultimately have "isNetworkError ?e = Inr True"
    using isNetworkError_characterisation [of ?e "''ERR_NETWORK''"] by blast
  moreover have "isNetworkError (JObj [(''code'', JStr ''unavailable'')]) = Inr False"
    using isNetworkError_characterisation [of "JObj [(''code'', JStr ''unavailable'')]"]
    by simp
  moreover have "\<not> str_includes (toLowerCase ''ERR_NETWORK'') ''ERR_NETWORK''"
    using isNetworkError_characterisation [of ?e "''ERR_NETWORK''"] by blast
  ultimately show ?thesis by blast
qed

text \<open>
  An error can lack a string message and still make the function throw (C10 as
  stated): for a message that is a number, \<^verbatim>\<open>error?.message?.toLowerCase\<close> is
  \<^verbatim>\<open>undefined\<close>, and calling it is a \<^verbatim>\<open>TypeError\<close>.
\<close>

theorem numeric_message_throws:
  "isNetworkError (JObj [(''message'', JNum 42)]) = Inl TypeError"
  by (simp add: isNetworkError_def)

end
